theory Spec2Isabelle
  imports Main
begin

section \<open>Errors, console output and the call log\<close>

text \<open>
  The runners of \<^verbatim>\<open>src/unet/train.py\<close> catch nothing: whatever a collaborator raises
  ends the pass. \<open>IndexError\<close> and \<open>KeyError\<close> are the two exceptions the runners' own
  subscripts can raise (\<^verbatim>\<open>history["loss"][i] = ...\<close>, \<^verbatim>\<open>loss["combined"]\<close>);
  \<open>Raised\<close> is an exception coming out of a collaborator.
\<close>

datatype error = IndexError | KeyError | Raised string

text \<open>The lines \<^verbatim>\<open>train()\<close> prints; the numbers are kept unformatted.\<close>

datatype 'a message =
    UsingDevice string
  | EpochHeader nat nat
  | LearningRate 'a
  | TrainSummary 'a 'a
  | ValSummary 'a 'a
  | TrainingComplete
  | TestSummary 'a 'a

text \<open>
  Every call the source makes to a collaborator (torch, tqdm, the metric module, the file
  system) is logged, in program order, when the call is made.
\<close>

datatype 'a event =
    Tqdm string nat
  | ModelTrain
  | ModelEval
  | NoGradEnter
  | NoGradExit
  | ToDevice
  | AutocastEnter string
  | AutocastExit
  | Forward
  | Criterion
  | ZeroGrad bool
  | ScalerScale
  | Backward
  | ScalerStep
  | ScalerUpdate
  | SchedulerStep
  | Item
  | DiceScore
  | HausdorffDistance
  | SetPostfix 'a 'a
  | SetSeed
  | Print "'a message"
  | NewImageDataset string
  | NewDataLoader bool
  | NewUNet
  | NewAdamW
  | NewOneCycleLR
  | NewBCEDiceLoss
  | NewGradScaler
  | GetLastLr
  | Makedirs string
  | StateDict
  | TorchSave string

section \<open>The mutable objects\<close>

text \<open>
  A learning-rate scheduler is its step counter (torch's \<^verbatim>\<open>last_epoch\<close>) and the
  configuration it was built with.
\<close>

record 'h lr_scheduler =
  last_epoch :: nat
  sched_config :: 'h

text \<open>
  The objects the runners receive by reference, with the process-wide torch flags, the file
  system and the call log. \<open>scheduler\<close> is \<open>None\<close> when the caller passes no scheduler.
  \<open>grads\<close> is \<open>None\<close> when the parameters' \<^verbatim>\<open>.grad\<close> fields are \<^verbatim>\<open>None\<close>.
\<close>

record ('p, 'g, 'o, 'c, 'h, 'a) world =
  params :: 'p
  training :: bool
  grads :: "'g option"
  optimizer :: 'o
  grad_scaler :: 'c
  scheduler :: "'h lr_scheduler option"
  autocast :: bool
  grad_enabled :: bool
  dirs :: "string set"
  files :: "string \<rightharpoonup> 'p"
  trace :: "'a event list"

text \<open>
  The collaborators of the runners, none of which is in \<^verbatim>\<open>src/\<close>: they are parameters.
  Each returns its value or the exception it raises.
  \<open>forward\<close> is the model's \<^verbatim>\<open>__call__\<close>: a function of the module's mode
  (\<open>training\<close>), the autocast and gradient flags, the parameters and the image batch.
  \<open>fzero\<close>, \<open>fadd\<close> and \<open>fdiv\<close> are the float \<^verbatim>\<open>0.0\<close>, float addition and the
  division of a float by a batch count; nothing is assumed about them.
\<close>

record ('t, 'p, 'g, 'o, 'c, 'h, 'a) env =
  to_device :: "string \<Rightarrow> 't \<Rightarrow> error + 't"
  autocast_enter :: "string \<Rightarrow> error + unit"
  forward :: "bool \<Rightarrow> bool \<Rightarrow> bool \<Rightarrow> 'p \<Rightarrow> 't \<Rightarrow> error + 't"
  criterion :: "bool \<Rightarrow> bool \<Rightarrow> 't \<Rightarrow> 't \<Rightarrow> error + (string \<rightharpoonup> 't)"
  scale :: "'c \<Rightarrow> 't \<Rightarrow> error + 't"
  backward :: "'p \<Rightarrow> 't \<Rightarrow> 'g option \<Rightarrow> error + 'g"
  scaler_step :: "'c \<Rightarrow> 'o \<Rightarrow> 'p \<Rightarrow> 'g option \<Rightarrow> error + ('c \<times> 'o \<times> 'p \<times> 'g option)"
  scaler_update :: "'c \<Rightarrow> error + 'c"
  scheduler_step :: "'h \<Rightarrow> nat \<Rightarrow> 'o \<Rightarrow> error + 'o"
  item :: "'t \<Rightarrow> error + 'a"
  dice_score :: "'t \<Rightarrow> 't \<Rightarrow> error + 'a"
  hausdorff_distance :: "'t \<Rightarrow> 't \<Rightarrow> error + 'a"
  fzero :: 'a
  fadd :: "'a \<Rightarrow> 'a \<Rightarrow> 'a"
  fdiv :: "'a \<Rightarrow> nat \<Rightarrow> 'a"

section \<open>Sequencing with exceptions\<close>

type_synonym ('w, 'r) prog = "'w \<Rightarrow> (error + 'r) \<times> 'w"

definition ret :: "'r \<Rightarrow> ('w, 'r) prog" where
  "ret x = (\<lambda>w. (Inr x, w))"

definition lift :: "error + 'r \<Rightarrow> ('w, 'r) prog" where
  "lift r = (\<lambda>w. (r, w))"

definition andthen :: "('w, 'r) prog \<Rightarrow> ('r \<Rightarrow> ('w, 's) prog) \<Rightarrow> ('w, 's) prog" where
  "andthen m f = (\<lambda>w. case m w of (Inl e, w') \<Rightarrow> (Inl e, w') | (Inr x, w') \<Rightarrow> f x w')"

definition modify :: "('w \<Rightarrow> 'w) \<Rightarrow> ('w, unit) prog" where
  "modify f = (\<lambda>w. (Inr (), f w))"

definition call ::
  "'a event \<Rightarrow> error + 'r \<Rightarrow> (('p, 'g, 'o, 'c, 'h, 'a) world, 'r) prog" where
  "call e r = (\<lambda>w. (r, w\<lparr>trace := trace w @ [e]\<rparr>))"

definition log :: "'a event \<Rightarrow> (('p, 'g, 'o, 'c, 'h, 'a) world, unit) prog" where
  "log e = call e (Inr ())"

text \<open>
  \<^verbatim>\<open>with torch.no_grad():\<close> switches gradient tracking off for its body and restores the
  previous setting on the way out, also when the body raises.
\<close>

definition no_grad ::
  "(('p, 'g, 'o, 'c, 'h, 'a) world, 'r) prog \<Rightarrow> (('p, 'g, 'o, 'c, 'h, 'a) world, 'r) prog" where
  "no_grad body = (\<lambda>w.
     case body (w\<lparr>grad_enabled := False, trace := trace w @ [NoGradEnter]\<rparr>) of
       (r, w') \<Rightarrow> (r, w'\<lparr>grad_enabled := grad_enabled w, trace := trace w' @ [NoGradExit]\<rparr>))"

text \<open>\<^verbatim>\<open>with torch.autocast(device):\<close> likewise, for the autocast flag.\<close>

definition with_autocast ::
  "('t, 'p, 'g, 'o, 'c, 'h, 'a) env \<Rightarrow> string \<Rightarrow>
   (('p, 'g, 'o, 'c, 'h, 'a) world, 'r) prog \<Rightarrow> (('p, 'g, 'o, 'c, 'h, 'a) world, 'r) prog" where
  "with_autocast env device body =
     andthen (call (AutocastEnter device) (autocast_enter env device)) (\<lambda>_. (\<lambda>w.
       case body (w\<lparr>autocast := True\<rparr>) of
         (r, w') \<Rightarrow> (r, w'\<lparr>autocast := autocast w, trace := trace w' @ [AutocastExit]\<rparr>)))"

section \<open>The per-batch history\<close>

record 'a history =
  loss :: "'a list"
  dice :: "'a list"
  hausdorff :: "'a list"

text \<open>The local variables of a runner's loop.\<close>

record 'a acc =
  hist :: "'a history"
  running_loss :: 'a
  running_dice :: 'a
  running_hausdorff :: 'a

text \<open>\<^verbatim>\<open>xs[i] = v\<close> on a numpy array of fixed length, \<open>i\<close> coming from \<^verbatim>\<open>enumerate\<close>.\<close>

definition store :: "nat \<Rightarrow> 'a \<Rightarrow> 'a list \<Rightarrow> error + 'a list" where
  "store i v xs = (if i < length xs then Inr (xs[i := v]) else Inl IndexError)"

text \<open>\<^verbatim>\<open>d[k]\<close> on a dict.\<close>

definition lookup :: "('k \<rightharpoonup> 'v) \<Rightarrow> 'k \<Rightarrow> error + 'v" where
  "lookup d k = (case d k of None \<Rightarrow> Inl KeyError | Some v \<Rightarrow> Inr v)"

text \<open>
  \<^verbatim>\<open>{"loss": np.zeros(n_batches), "dice": np.zeros(n_batches),
    "hausdorff": np.zeros(n_batches)}\<close> with the three running sums at \<^verbatim>\<open>0.0\<close>.
\<close>

definition init_acc :: "('t, 'p, 'g, 'o, 'c, 'h, 'a) env \<Rightarrow> nat \<Rightarrow> 'a acc" where
  "init_acc env n_batches =
     \<lparr>hist = \<lparr>loss = replicate n_batches (fzero env),
              dice = replicate n_batches (fzero env),
              hausdorff = replicate n_batches (fzero env)\<rparr>,
      running_loss = fzero env,
      running_dice = fzero env,
      running_hausdorff = fzero env\<rparr>"

text \<open>
  Lines 55-66 of \<^verbatim>\<open>train_step\<close>, repeated as lines 86-97 of \<^verbatim>\<open>eval_step\<close>: the three
  values of batch \<open>i\<close> are written at index \<open>i\<close>, read back into the running sums, and the
  running means of loss and dice are shown.
\<close>

definition record_batch ::
  "('t, 'p, 'g, 'o, 'c, 'h, 'a) env \<Rightarrow> nat \<Rightarrow> 't \<Rightarrow> 't \<Rightarrow> (string \<rightharpoonup> 't) \<Rightarrow> 'a acc \<Rightarrow>
   (('p, 'g, 'o, 'c, 'h, 'a) world, 'a acc) prog" where
  "record_batch env i preds masks l st =
     andthen (lift (lookup l ''combined'')) (\<lambda>combined.
     andthen (call Item (item env combined)) (\<lambda>v.
     andthen (lift (store i v (loss (hist st)))) (\<lambda>ls.
     andthen (call DiceScore (dice_score env preds masks)) (\<lambda>d.
     andthen (lift (store i d (dice (hist st)))) (\<lambda>ds.
     andthen (call HausdorffDistance (hausdorff_distance env preds masks)) (\<lambda>h.
     andthen (lift (store i h (hausdorff (hist st)))) (\<lambda>hs.
       (let rl = fadd env (running_loss st) (ls ! i);
            rd = fadd env (running_dice st) (ds ! i);
            rh = fadd env (running_hausdorff st) (hs ! i)
        in andthen (log (SetPostfix (fdiv env rl (i + 1)) (fdiv env rd (i + 1)))) (\<lambda>_.
           ret \<lparr>hist = \<lparr>loss = ls, dice = ds, hausdorff = hs\<rparr>,
                running_loss = rl, running_dice = rd, running_hausdorff = rh\<rparr>)))))))))"

section \<open>The evaluation runner\<close>

text \<open>The body of the loop of \<^verbatim>\<open>eval_step\<close> (lines 82-97) for batch \<open>i\<close>.\<close>

definition eval_batch ::
  "('t, 'p, 'g, 'o, 'c, 'h, 'a) env \<Rightarrow> string \<Rightarrow> nat \<Rightarrow> 't \<times> 't \<Rightarrow> 'a acc \<Rightarrow>
   (('p, 'g, 'o, 'c, 'h, 'a) world, 'a acc) prog" where
  "eval_batch env device i batch st =
     andthen (call ToDevice (to_device env device (fst batch))) (\<lambda>imgs.
     andthen (call ToDevice (to_device env device (snd batch))) (\<lambda>masks.
     andthen (\<lambda>w. call Forward
                (forward env (training w) (autocast w) (grad_enabled w) (params w) imgs) w) (\<lambda>preds.
     andthen (\<lambda>w. call Criterion
                (criterion env (autocast w) (grad_enabled w) preds masks) w) (\<lambda>l.
     record_batch env i preds masks l st))))"

text \<open>\<^verbatim>\<open>for i, (imgs, masks) in progress:\<close> from index \<open>i\<close> on.\<close>

fun eval_loop ::
  "('t, 'p, 'g, 'o, 'c, 'h, 'a) env \<Rightarrow> string \<Rightarrow> nat \<Rightarrow> ('t \<times> 't) list \<Rightarrow> 'a acc \<Rightarrow>
   (('p, 'g, 'o, 'c, 'h, 'a) world, 'a acc) prog" where
  "eval_loop env device i [] st = ret st"
| "eval_loop env device i (batch # rest) st =
     andthen (eval_batch env device i batch st) (eval_loop env device (Suc i) rest)"

text \<open>
  \<^verbatim>\<open>eval_step(model, dataloader, criterion, device, desc)\<close>. The data loader is the
  sequence of batches it yields, \<^verbatim>\<open>len(dataloader)\<close> their number.
\<close>

definition eval_step ::
  "('t, 'p, 'g, 'o, 'c, 'h, 'a) env \<Rightarrow> ('t \<times> 't) list \<Rightarrow> string \<Rightarrow> string \<Rightarrow>
   (('p, 'g, 'o, 'c, 'h, 'a) world, 'a history) prog" where
  "eval_step env dataloader device desc =
     (let n_batches = length dataloader in
      andthen (log (Tqdm desc n_batches)) (\<lambda>_.
      andthen (andthen (log ModelEval) (\<lambda>_. modify (\<lambda>w. w\<lparr>training := False\<rparr>))) (\<lambda>_.
      andthen (no_grad (eval_loop env device 0 dataloader (init_acc env n_batches))) (\<lambda>st.
      ret (hist st)))))"

section \<open>The training runner\<close>

text \<open>
  \<^verbatim>\<open>scheduler.step() if scheduler else None\<close> (line 53). A step advances the counter and
  then writes the new learning rate into the optimizer.
\<close>

definition step_scheduler ::
  "('t, 'p, 'g, 'o, 'c, 'h, 'a) env \<Rightarrow> (('p, 'g, 'o, 'c, 'h, 'a) world, unit) prog" where
  "step_scheduler env = (\<lambda>w.
     case scheduler w of
       None \<Rightarrow> ret () w
     | Some s \<Rightarrow>
         andthen (log SchedulerStep) (\<lambda>_.
         andthen (modify (\<lambda>w. w\<lparr>scheduler := Some (s\<lparr>last_epoch := Suc (last_epoch s)\<rparr>)\<rparr>)) (\<lambda>_.
         andthen (\<lambda>w. lift (scheduler_step env (sched_config s) (Suc (last_epoch s)) (optimizer w)) w)
           (\<lambda>opt. modify (\<lambda>w. w\<lparr>optimizer := opt\<rparr>)))) w)"

text \<open>The body of the loop of \<^verbatim>\<open>train_step\<close> (lines 43-66) for batch \<open>i\<close>.\<close>

definition train_batch ::
  "('t, 'p, 'g, 'o, 'c, 'h, 'a) env \<Rightarrow> string \<Rightarrow> nat \<Rightarrow> 't \<times> 't \<Rightarrow> 'a acc \<Rightarrow>
   (('p, 'g, 'o, 'c, 'h, 'a) world, 'a acc) prog" where
  "train_batch env device i batch st =
     andthen (call ToDevice (to_device env device (fst batch))) (\<lambda>imgs.
     andthen (call ToDevice (to_device env device (snd batch))) (\<lambda>masks.
     andthen (with_autocast env device
        (andthen (\<lambda>w. call Forward
                   (forward env (training w) (autocast w) (grad_enabled w) (params w) imgs) w) (\<lambda>preds.
         andthen (\<lambda>w. call Criterion
                   (criterion env (autocast w) (grad_enabled w) preds masks) w) (\<lambda>l.
         ret (preds, l))))) (\<lambda>pl.
     andthen (log (ZeroGrad True)) (\<lambda>_.
     andthen (modify (\<lambda>w. w\<lparr>grads := None\<rparr>)) (\<lambda>_.
     andthen (lift (lookup (snd pl) ''combined'')) (\<lambda>combined.
     andthen (\<lambda>w. call ScalerScale (scale env (grad_scaler w) combined) w) (\<lambda>scaled.
     andthen (\<lambda>w. call Backward (backward env (params w) scaled (grads w)) w) (\<lambda>g.
     andthen (modify (\<lambda>w. w\<lparr>grads := Some g\<rparr>)) (\<lambda>_.
     andthen (\<lambda>w. call ScalerStep
                (scaler_step env (grad_scaler w) (optimizer w) (params w) (grads w)) w) (\<lambda>r.
     andthen (modify (\<lambda>w. w\<lparr>grad_scaler := fst r, optimizer := fst (snd r),
                              params := fst (snd (snd r)), grads := snd (snd (snd r))\<rparr>)) (\<lambda>_.
     andthen (\<lambda>w. call ScalerUpdate (scaler_update env (grad_scaler w)) w) (\<lambda>c.
     andthen (modify (\<lambda>w. w\<lparr>grad_scaler := c\<rparr>)) (\<lambda>_.
     andthen (step_scheduler env) (\<lambda>_.
     record_batch env i (fst pl) masks (snd pl) st))))))))))))))"

fun train_loop ::
  "('t, 'p, 'g, 'o, 'c, 'h, 'a) env \<Rightarrow> string \<Rightarrow> nat \<Rightarrow> ('t \<times> 't) list \<Rightarrow> 'a acc \<Rightarrow>
   (('p, 'g, 'o, 'c, 'h, 'a) world, 'a acc) prog" where
  "train_loop env device i [] st = ret st"
| "train_loop env device i (batch # rest) st =
     andthen (train_batch env device i batch st) (train_loop env device (Suc i) rest)"

text \<open>
  \<^verbatim>\<open>train_step(model, dataloader, optimizer, criterion, device, scaler, scheduler)\<close>: the
  model, optimizer, scaler and scheduler are the objects of the world.
\<close>

definition train_step ::
  "('t, 'p, 'g, 'o, 'c, 'h, 'a) env \<Rightarrow> ('t \<times> 't) list \<Rightarrow> string \<Rightarrow>
   (('p, 'g, 'o, 'c, 'h, 'a) world, 'a history) prog" where
  "train_step env dataloader device =
     (let n_batches = length dataloader in
      andthen (log (Tqdm ''Training'' n_batches)) (\<lambda>_.
      andthen (andthen (log ModelTrain) (\<lambda>_. modify (\<lambda>w. w\<lparr>training := True\<rparr>))) (\<lambda>_.
      andthen (train_loop env device 0 dataloader (init_acc env n_batches)) (\<lambda>st.
      ret (hist st)))))"

section \<open>The orchestrator\<close>










section \<open>Notions used in the statements\<close>

text \<open>The calls that touch the optimizer, the gradient scaler or the scheduler.\<close>

fun is_update_event :: "'a event \<Rightarrow> bool" where
  "is_update_event (ZeroGrad _) = True"
| "is_update_event ScalerScale = True"
| "is_update_event Backward = True"
| "is_update_event ScalerStep = True"
| "is_update_event ScalerUpdate = True"
| "is_update_event SchedulerStep = True"
| "is_update_event _ = False"

text \<open>
  What a runner can read of the world while it evaluates: the parameters, the module's mode
  and the two torch flags.
\<close>

definition view :: "('p, 'g, 'o, 'c, 'h, 'a) world \<Rightarrow> 'p \<times> bool \<times> bool \<times> bool" where
  "view w = (params w, training w, autocast w, grad_enabled w)"

text \<open>
  A program observes the world when, on worlds with the same view, it returns the same
  result, logs the same calls (all from \<open>A\<close>) and changes nothing else.
\<close>

definition observes ::
  "'a event set \<Rightarrow> (('p, 'g, 'o, 'c, 'h, 'a) world, 'r) prog \<Rightarrow> bool" where
  "observes A m \<longleftrightarrow>
     (\<forall>w0 :: ('p, 'g, 'o, 'c, 'h, 'a) world. \<exists>r evs. set evs \<subseteq> A \<and>
        (\<forall>w. view w = view w0 \<longrightarrow> m w = (r, w\<lparr>trace := trace w @ evs\<rparr>)))"


text \<open>
  The three values a runner computes for one batch (lines 43-47 and 55-57, or 82-88), as a
  function of the module's mode, the two flags and the parameters at that moment.
\<close>

definition batch_values ::
  "('t, 'p, 'g, 'o, 'c, 'h, 'a) env \<Rightarrow> string \<Rightarrow> bool \<Rightarrow> bool \<Rightarrow> bool \<Rightarrow> 'p \<Rightarrow> 't \<times> 't \<Rightarrow>
   error + ('a \<times> 'a \<times> 'a)" where
  "batch_values env device tr ac gr p batch =
     (case to_device env device (fst batch) of Inl e \<Rightarrow> Inl e | Inr imgs \<Rightarrow>
      case to_device env device (snd batch) of Inl e \<Rightarrow> Inl e | Inr masks \<Rightarrow>
      case forward env tr ac gr p imgs of Inl e \<Rightarrow> Inl e | Inr preds \<Rightarrow>
      case criterion env ac gr preds masks of Inl e \<Rightarrow> Inl e | Inr l \<Rightarrow>
      case lookup l ''combined'' of Inl e \<Rightarrow> Inl e | Inr combined \<Rightarrow>
      case item env combined of Inl e \<Rightarrow> Inl e | Inr v \<Rightarrow>
      case dice_score env preds masks of Inl e \<Rightarrow> Inl e | Inr d \<Rightarrow>
      case hausdorff_distance env preds masks of Inl e \<Rightarrow> Inl e | Inr h \<Rightarrow>
      Inr (v, d, h))"

text \<open>
  The calls of one iteration of the loop of \<^verbatim>\<open>train_step\<close>, in program order; \<open>sched\<close>
  tells whether a scheduler was passed, \<open>a\<close> and \<open>b\<close> are the two running means shown.
\<close>

definition train_batch_events :: "string \<Rightarrow> bool \<Rightarrow> 'a \<Rightarrow> 'a \<Rightarrow> 'a event list" where
  "train_batch_events device sched a b =
     [ToDevice, ToDevice, AutocastEnter device, Forward, Criterion, AutocastExit,
      ZeroGrad True, ScalerScale, Backward, ScalerStep, ScalerUpdate] @
     (if sched then [SchedulerStep] else []) @
     [Item, DiceScore, HausdorffDistance, SetPostfix a b]"

text \<open>The world when the loop of \<^verbatim>\<open>train_step\<close> starts.\<close>

definition train_begin ::
  "nat \<Rightarrow> ('p, 'g, 'o, 'c, 'h, 'a) world \<Rightarrow> ('p, 'g, 'o, 'c, 'h, 'a) world" where
  "train_begin n_batches w =
     w\<lparr>training := True, trace := trace w @ [Tqdm ''Training'' n_batches, ModelTrain]\<rparr>"

text \<open>The world when the loop of \<^verbatim>\<open>eval_step\<close> starts, inside \<^verbatim>\<open>no_grad\<close>.\<close>

definition eval_begin ::
  "string \<Rightarrow> nat \<Rightarrow> ('p, 'g, 'o, 'c, 'h, 'a) world \<Rightarrow> ('p, 'g, 'o, 'c, 'h, 'a) world" where
  "eval_begin desc n_batches w =
     w\<lparr>training := False, grad_enabled := False,
       trace := trace w @ [Tqdm desc n_batches, ModelEval, NoGradEnter]\<rparr>"

section \<open>A small concrete run\<close>

text \<open>
  Tensors, parameters and scalars are integers; every collaborator succeeds. The optimizer
  step lowers the parameter by one, the scheduler raises the learning rate by ten.
\<close>

definition example_env :: "(int, int, int, int, int, unit, int) env" where
  "example_env =
     \<lparr>to_device = (\<lambda>device x. Inr x),
      autocast_enter = (\<lambda>device. Inr ()),
      forward = (\<lambda>tr ac gr p x. Inr (p * x)),
      criterion = (\<lambda>ac gr preds masks. Inr [''combined'' \<mapsto> preds - masks]),
      scale = (\<lambda>c l. Inr (c * l)),
      backward = (\<lambda>p l g. Inr (l + (case g of None \<Rightarrow> 0 | Some g' \<Rightarrow> g'))),
      scaler_step = (\<lambda>c opt p g. Inr (c, opt, p - 1, g)),
      scaler_update = (\<lambda>c. Inr (c + 1)),
      scheduler_step = (\<lambda>cfg n opt. Inr (opt + 10)),
      item = (\<lambda>l. Inr l),
      dice_score = (\<lambda>preds masks. Inr (preds + masks)),
      hausdorff_distance = (\<lambda>preds masks. Inr (preds * masks)),
      fzero = 0,
      fadd = (\<lambda>a b. a + b),
      fdiv = (\<lambda>a n. a div int n)\<rparr>"

definition example_world :: "(int, int, int, int, unit, int) world" where
  "example_world =
     \<lparr>params = 5, training = False, grads = Some 7, optimizer = 0, grad_scaler = 2,
      scheduler = Some \<lparr>last_epoch = 0, sched_config = ()\<rparr>,
      autocast = False, grad_enabled = True, dirs = {}, files = Map.empty, trace = []\<rparr>"

definition example_batches :: "(int \<times> int) list" where
  "example_batches = [(1, 1), (3, 2)]"



text \<open>
  A program appends calls from \<open>A\<close> to the log and leaves files and directories alone,
  whether it returns or raises.
\<close>

definition appends ::
  "'a event set \<Rightarrow> (('p, 'g, 'o, 'c, 'h, 'a) world, 'r) prog \<Rightarrow> bool" where
  "appends A m \<longleftrightarrow>
     (\<forall>w. \<exists>evs. set evs \<subseteq> A \<and> trace (snd (m w)) = trace w @ evs \<and>
        files (snd (m w)) = files w \<and> dirs (snd (m w)) = dirs w)"






section \<open>Sequencing lemmas\<close>

lemma andthen_Inr:
  "andthen m f w = (Inr y, w2) \<longleftrightarrow> (\<exists>x w1. m w = (Inr x, w1) \<and> f x w1 = (Inr y, w2))"
  by (auto simp: andthen_def split: prod.splits sum.splits)


lemma call_Inr: "call e r w = (Inr x, w') \<longleftrightarrow> r = Inr x \<and> w' = w\<lparr>trace := trace w @ [e]\<rparr>"
  by (auto simp: call_def)

lemma log_eq: "log e w = (Inr (), w\<lparr>trace := trace w @ [e]\<rparr>)"
  by (simp add: log_def call_def)

lemma lift_Inr: "lift r w = (Inr x, w') \<longleftrightarrow> r = Inr x \<and> w' = w"
  by (auto simp: lift_def)

lemma ret_eq: "ret x w = (Inr x, w)"
  by (simp add: ret_def)

lemma modify_eq: "modify f w = (Inr (), f w)"
  by (simp add: modify_def)

lemma store_Inr: "store i v xs = Inr ys \<longleftrightarrow> i < length xs \<and> ys = xs[i := v]"
  by (auto simp: store_def)

lemma lookup_Inr: "lookup d k = Inr v \<longleftrightarrow> d k = Some v"
  by (auto simp: lookup_def split: option.splits)

section \<open>The evaluation runner only observes\<close>

lemma view_trace [simp]: "view (w\<lparr>trace := t\<rparr>) = view w"
  by (simp add: view_def)

lemma observes_mono: "observes A m \<Longrightarrow> A \<subseteq> B \<Longrightarrow> observes B m"
  unfolding observes_def by (meson subset_trans)

lemma observesI:
  assumes "set evs \<subseteq> A" "\<And>w. m w = (r, w\<lparr>trace := trace w @ evs\<rparr>)"
  shows "observes A m"
  unfolding observes_def using assms by blast

lemma observes_ret: "observes A (ret x)"
  by (rule observesI[where evs = "[]" and r = "Inr x"]) (simp_all add: ret_def)

lemma observes_lift: "observes A (lift r)"
  by (rule observesI[where evs = "[]" and r = r]) (simp_all add: lift_def)

lemma observes_log: "e \<in> A \<Longrightarrow> observes A (log e)"
  by (rule observesI[where evs = "[e]" and r = "Inr ()"]) (simp_all add: log_def call_def)

lemma observes_call:
  assumes "e \<in> A" "\<And>w w'. view w = view w' \<Longrightarrow> F w = F w'"
  shows "observes A (\<lambda>w. call e (F w) w)"
  unfolding observes_def
proof
  fix w0 :: "('b, 'c, 'd, 'e, 'f, 'a) world"
  have "call e (F w) w = (F w0, w\<lparr>trace := trace w @ [e]\<rparr>)" if "view w = view w0" for w
    using assms(2)[OF that] by (simp add: call_def)
  moreover have "set [e] \<subseteq> A" using assms(1) by simp
  ultimately show "\<exists>r evs. set evs \<subseteq> A \<and>
          (\<forall>w. view w = view w0 \<longrightarrow> call e (F w) w = (r, w\<lparr>trace := trace w @ evs\<rparr>))"
    by blast
qed

lemma observes_andthen:
  assumes "observes A m" "\<And>x. observes A (f x)"
  shows "observes A (andthen m f)"
  unfolding observes_def
proof
  fix w0 :: "('b, 'c, 'd, 'e, 'f, 'a) world"
  from assms(1) obtain r evs where m: "set evs \<subseteq> A"
    "\<And>w. view w = view w0 \<Longrightarrow> m w = (r, w\<lparr>trace := trace w @ evs\<rparr>)"
    unfolding observes_def by blast
  show "\<exists>r evs. set evs \<subseteq> A \<and>
          (\<forall>w. view w = view w0 \<longrightarrow> andthen m f w = (r, w\<lparr>trace := trace w @ evs\<rparr>))"
  proof (cases r)
    case (Inl e)
    have "andthen m f w = (Inl e, w\<lparr>trace := trace w @ evs\<rparr>)" if "view w = view w0" for w
      using m(2)[OF that] Inl by (simp add: andthen_def)
    with m(1) show ?thesis by blast
  next
    case (Inr x)
    from assms(2)[of x] obtain r' evs' where f: "set evs' \<subseteq> A"
      "\<And>w. view w = view w0 \<Longrightarrow> f x w = (r', w\<lparr>trace := trace w @ evs'\<rparr>)"
      unfolding observes_def by blast
    have "andthen m f w = (r', w\<lparr>trace := trace w @ (evs @ evs')\<rparr>)" if "view w = view w0" for w
    proof -
      have "view (w\<lparr>trace := trace w @ evs\<rparr>) = view w0" using that by simp
      from f(2)[OF this] m(2)[OF that] Inr show ?thesis by (simp add: andthen_def)
    qed
    moreover have "set (evs @ evs') \<subseteq> A" using m(1) f(1) by simp
    ultimately show ?thesis by blast
  qed
qed


lemma observes_record_batch:
  "observes {e. \<not> is_update_event e} (record_batch env i preds masks l st)"
  unfolding record_batch_def Let_def
  by (intro observes_andthen observes_lift observes_ret observes_log
        observes_call[where F = "\<lambda>_. r" for r]) simp_all

lemma observes_eval_batch:
  "observes {e. \<not> is_update_event e} (eval_batch env device i batch st)"
  unfolding eval_batch_def
  by (intro observes_andthen observes_record_batch
        observes_call[where F = "\<lambda>_. r" for r]
        observes_call[where F = "\<lambda>w. forward env (training w) (autocast w) (grad_enabled w) (params w) x" for x]
        observes_call[where F = "\<lambda>w. criterion env (autocast w) (grad_enabled w) x y" for x y])
     (simp_all add: view_def)

lemma observes_eval_loop:
  "observes {e. \<not> is_update_event e} (eval_loop env device i batches st)"
  by (induction batches arbitrary: i st)
     (simp_all add: observes_ret observes_andthen observes_eval_batch)


lemma eval_step_shape:
  fixes w :: "('p, 'g, 'o, 'c, 'h, 'a) world"
  obtains r evs where "filter is_update_event evs = []"
    and "\<And>(w' :: ('p, 'g, 'o, 'c, 'h, 'a) world) desc.
           params w' = params w \<Longrightarrow> autocast w' = autocast w \<Longrightarrow>
           eval_step env dl device desc w' =
             (r, w'\<lparr>training := False,
                   trace := trace w' @ [Tqdm desc (length dl), ModelEval, NoGradEnter] @ evs @ [NoGradExit]\<rparr>)"
proof -
  let ?body = "eval_loop env device 0 dl (init_acc env (length dl))"
  let ?w0 = "w\<lparr>training := False, grad_enabled := False\<rparr>"
  from observes_eval_loop[of env device 0 dl "init_acc env (length dl)"]
  obtain r evs where evs: "set evs \<subseteq> {e. \<not> is_update_event e}"
    and run: "\<And>w1 :: ('p, 'g, 'o, 'c, 'h, 'a) world. view w1 = view ?w0 \<Longrightarrow>
                ?body w1 = (r, w1\<lparr>trace := trace w1 @ evs\<rparr>)"
    unfolding observes_def by blast
  let ?r = "case r of Inl e \<Rightarrow> Inl e | Inr st \<Rightarrow> Inr (hist st)"
  have "filter is_update_event evs = []"
    using evs by (auto simp: filter_empty_conv)
  moreover have "eval_step env dl device desc w' =
             (?r, w'\<lparr>training := False,
                   trace := trace w' @ [Tqdm desc (length dl), ModelEval, NoGradEnter] @ evs @ [NoGradExit]\<rparr>)"
    if "params w' = params w" "autocast w' = autocast w"
    for w' :: "('p, 'g, 'o, 'c, 'h, 'a) world" and desc
  proof -
    let ?w1 = "w'\<lparr>training := False, grad_enabled := False,
                  trace := trace w' @ [Tqdm desc (length dl), ModelEval, NoGradEnter]\<rparr>"
    have "view ?w1 = view ?w0" using that by (simp add: view_def)
    from run[OF this] show ?thesis
      by (cases r) (simp_all add: eval_step_def Let_def andthen_def log_def call_def modify_def
            no_grad_def ret_def)
  qed
  ultimately show thesis using that by blast
qed


section \<open>Claims about the evaluation runner\<close>

text \<open>
  Claim C2. Whatever the model, the batches, the loss function and the device, and whether
  the pass completes or raises, \<^verbatim>\<open>eval_step\<close> leaves the parameters, the gradients, the
  optimizer, the gradient scaler and the scheduler as they were, and none of the calls it
  adds to the log is a call to the optimizer, the scaler or the scheduler.
\<close>

theorem eval_step_frame:
  "params (snd (eval_step env dl device desc w)) = params w \<and>
   grads (snd (eval_step env dl device desc w)) = grads w \<and>
   optimizer (snd (eval_step env dl device desc w)) = optimizer w \<and>
   grad_scaler (snd (eval_step env dl device desc w)) = grad_scaler w \<and>
   scheduler (snd (eval_step env dl device desc w)) = scheduler w \<and>
   take (length (trace w)) (trace (snd (eval_step env dl device desc w))) = trace w \<and>
   filter is_update_event
     (drop (length (trace w)) (trace (snd (eval_step env dl device desc w)))) = []"
proof -
  obtain r evs where evs: "filter is_update_event evs = []"
    and run: "eval_step env dl device desc w =
       (r, w\<lparr>training := False,
             trace := trace w @ [Tqdm desc (length dl), ModelEval, NoGradEnter] @ evs @ [NoGradExit]\<rparr>)"
    using eval_step_shape[of w env dl device] by metis
  show ?thesis unfolding run using evs by simp
qed

text \<open>
  Claim C6. A second call of \<^verbatim>\<open>eval_step\<close> right after a first one, on the same batch
  sequence, returns what the first call returned: the same history, entry by entry (or the
  same exception).
\<close>

theorem eval_step_idempotent:
  fixes w :: "('p, 'g, 'o, 'c, 'h, 'a) world"
  shows "fst (eval_step env dl device desc (snd (eval_step env dl device desc w))) =
   fst (eval_step env dl device desc w)"
proof -
  obtain r evs where
    run: "\<And>(w' :: ('p, 'g, 'o, 'c, 'h, 'a) world) desc. params w' = params w \<Longrightarrow> autocast w' = autocast w \<Longrightarrow>
       eval_step env dl device desc w' =
       (r, w'\<lparr>training := False,
             trace := trace w' @ [Tqdm desc (length dl), ModelEval, NoGradEnter] @ evs @ [NoGradExit]\<rparr>)"
    using eval_step_shape[of w env dl device] by metis
  have 1: "eval_step env dl device desc w = (r, w\<lparr>training := False,
             trace := trace w @ [Tqdm desc (length dl), ModelEval, NoGradEnter] @ evs @ [NoGradExit]\<rparr>)"
    (is "_ = (r, ?w1)")
    by (rule run) simp_all
  have 2: "fst (eval_step env dl device desc ?w1) = r"
    by (subst run) simp_all
  show ?thesis unfolding 1 using 2 by simp
qed

text \<open>
  Claim C9. The label \<^verbatim>\<open>desc\<close> reaches the progress bar only: two calls that differ in the
  label return the same history and leave the same world, up to the label logged with the
  progress bar.
\<close>

theorem eval_step_label:
  fixes w :: "('p, 'g, 'o, 'c, 'h, 'a) world"
  shows "fst (eval_step env dl device desc1 w) = fst (eval_step env dl device desc2 w) \<and>
   (\<exists>evs. snd (eval_step env dl device desc1 w) =
             w\<lparr>training := False, trace := trace w @ Tqdm desc1 (length dl) # evs\<rparr> \<and>
          snd (eval_step env dl device desc2 w) =
             w\<lparr>training := False, trace := trace w @ Tqdm desc2 (length dl) # evs\<rparr>)"
proof -
  obtain r evs where
    run: "\<And>(w' :: ('p, 'g, 'o, 'c, 'h, 'a) world) desc. params w' = params w \<Longrightarrow> autocast w' = autocast w \<Longrightarrow>
       eval_step env dl device desc w' =
       (r, w'\<lparr>training := False,
             trace := trace w' @ [Tqdm desc (length dl), ModelEval, NoGradEnter] @ evs @ [NoGradExit]\<rparr>)"
    using eval_step_shape[of w env dl device] by metis
  have 1: "eval_step env dl device desc1 w = (r, w\<lparr>training := False,
             trace := trace w @ [Tqdm desc1 (length dl), ModelEval, NoGradEnter] @ evs @ [NoGradExit]\<rparr>)"
    by (rule run) simp_all
  have 2: "eval_step env dl device desc2 w = (r, w\<lparr>training := False,
             trace := trace w @ [Tqdm desc2 (length dl), ModelEval, NoGradEnter] @ evs @ [NoGradExit]\<rparr>)"
    by (rule run) simp_all
  show ?thesis unfolding 1 2
    by (simp, rule exI[where x = "ModelEval # NoGradEnter # evs @ [NoGradExit]"]) simp
qed

text \<open>
  Claim C10. On an empty batch sequence both runners return, without an exception, a history
  of three empty sequences; the only calls made are the progress bar, the mode switch and,
  in \<^verbatim>\<open>eval_step\<close>, entering and leaving \<^verbatim>\<open>no_grad\<close>: no forward pass, no loss, no
  optimizer, scaler or scheduler call.
\<close>

theorem empty_pass:
  "train_step env [] device w =
     (Inr \<lparr>loss = [], dice = [], hausdorff = []\<rparr>,
      w\<lparr>training := True, trace := trace w @ [Tqdm ''Training'' 0, ModelTrain]\<rparr>) \<and>
   eval_step env [] device desc w =
     (Inr \<lparr>loss = [], dice = [], hausdorff = []\<rparr>,
      w\<lparr>training := False, trace := trace w @ [Tqdm desc 0, ModelEval, NoGradEnter, NoGradExit]\<rparr>)"
  by (simp add: train_step_def eval_step_def andthen_def log_def call_def modify_def ret_def
        no_grad_def init_acc_def)


section \<open>Completed batches and passes\<close>

lemma with_autocast_Inr:
  "with_autocast env device body w = (Inr x, w') \<longleftrightarrow>
     autocast_enter env device = Inr () \<and>
     (\<exists>w1. body (w\<lparr>trace := trace w @ [AutocastEnter device], autocast := True\<rparr>) = (Inr x, w1) \<and>
           w' = w1\<lparr>autocast := autocast w, trace := trace w1 @ [AutocastExit]\<rparr>)"
  by (auto simp: with_autocast_def andthen_def call_def split: prod.splits sum.splits)

lemma step_scheduler_Inr:
  "step_scheduler env w = (Inr u, w') \<longleftrightarrow>
     (case scheduler w of
        None \<Rightarrow> w' = w
      | Some s \<Rightarrow> (\<exists>opt. scheduler_step env (sched_config s) (Suc (last_epoch s)) (optimizer w) = Inr opt \<and>
            w' = w\<lparr>trace := trace w @ [SchedulerStep],
                   scheduler := Some (s\<lparr>last_epoch := Suc (last_epoch s)\<rparr>),
                   optimizer := opt\<rparr>))"
  by (auto simp: step_scheduler_def andthen_def log_def call_def modify_def lift_def ret_def
           split: option.splits prod.splits sum.splits)

lemma record_batch_Inr:
  assumes "record_batch env i preds masks l st w = (Inr st', w')"
  shows "\<exists>c v d h. l ''combined'' = Some c \<and> item env c = Inr v \<and>
           dice_score env preds masks = Inr d \<and> hausdorff_distance env preds masks = Inr h \<and>
           i < length (loss (hist st)) \<and> i < length (dice (hist st)) \<and>
           i < length (hausdorff (hist st)) \<and>
           st' = \<lparr>hist = \<lparr>loss = (loss (hist st))[i := v], dice = (dice (hist st))[i := d],
                       hausdorff = (hausdorff (hist st))[i := h]\<rparr>,
                  running_loss = fadd env (running_loss st) v,
                  running_dice = fadd env (running_dice st) d,
                  running_hausdorff = fadd env (running_hausdorff st) h\<rparr> \<and>
           w' = w\<lparr>trace := trace w @ [Item, DiceScore, HausdorffDistance,
                   SetPostfix (fdiv env (fadd env (running_loss st) v) (Suc i))
                              (fdiv env (fadd env (running_dice st) d) (Suc i))]\<rparr>"
  using assms unfolding record_batch_def Let_def
  by (auto simp: andthen_Inr call_Inr lift_Inr log_eq ret_eq store_Inr lookup_Inr)

lemma train_batch_Inr:
  assumes "train_batch env device i batch st w = (Inr st', w')"
  shows "\<exists>v d h. batch_values env device (training w) True (grad_enabled w) (params w) batch
             = Inr (v, d, h) \<and>
           i < length (loss (hist st)) \<and> i < length (dice (hist st)) \<and>
           i < length (hausdorff (hist st)) \<and>
           st' = \<lparr>hist = \<lparr>loss = (loss (hist st))[i := v], dice = (dice (hist st))[i := d],
                       hausdorff = (hausdorff (hist st))[i := h]\<rparr>,
                  running_loss = fadd env (running_loss st) v,
                  running_dice = fadd env (running_dice st) d,
                  running_hausdorff = fadd env (running_hausdorff st) h\<rparr> \<and>
           trace w' = trace w @ train_batch_events device (scheduler w \<noteq> None)
                   (fdiv env (fadd env (running_loss st) v) (Suc i))
                   (fdiv env (fadd env (running_dice st) d) (Suc i)) \<and>
           scheduler w' = map_option (\<lambda>s. s\<lparr>last_epoch := Suc (last_epoch s)\<rparr>) (scheduler w) \<and>
           training w' = training w \<and> autocast w' = autocast w \<and>
           grad_enabled w' = grad_enabled w \<and> dirs w' = dirs w \<and> files w' = files w"
  using assms unfolding train_batch_def
  apply (clarsimp simp: andthen_Inr call_Inr lift_Inr log_eq ret_eq modify_eq lookup_Inr
      with_autocast_Inr step_scheduler_Inr)
  apply (drule record_batch_Inr)
  apply (auto simp: batch_values_def lookup_def train_batch_events_def split: option.splits)
  done


lemma train_loop_Inr:
  assumes "train_loop env device i bs st w = (Inr st', w')"
  shows "length (loss (hist st')) = length (loss (hist st)) \<and>
         length (dice (hist st')) = length (dice (hist st)) \<and>
         length (hausdorff (hist st')) = length (hausdorff (hist st)) \<and>
         (\<forall>j<i. loss (hist st') ! j = loss (hist st) ! j \<and>
                dice (hist st') ! j = dice (hist st) ! j \<and>
                hausdorff (hist st') ! j = hausdorff (hist st) ! j) \<and>
         scheduler w' = map_option (\<lambda>s. s\<lparr>last_epoch := last_epoch s + length bs\<rparr>) (scheduler w) \<and>
         training w' = training w \<and> autocast w' = autocast w \<and>
         grad_enabled w' = grad_enabled w \<and> dirs w' = dirs w \<and> files w' = files w \<and>
         (\<exists>ps. length ps = length bs \<and>
            trace w' = trace w @
              concat (map (\<lambda>(a, b). train_batch_events device (scheduler w \<noteq> None) a b) ps))"
  using assms
proof (induction bs arbitrary: i st w)
  case Nil
  then show ?case by (cases "scheduler w") (auto simp: ret_def)
next
  case (Cons b bs)
  from Cons.prems obtain st1 w1 where
    b: "train_batch env device i b st w = (Inr st1, w1)" and
    rest: "train_loop env device (Suc i) bs st1 w1 = (Inr st', w')"
    by (auto simp: andthen_Inr)
  from train_batch_Inr[OF b] obtain v d h where
    st1: "st1 = \<lparr>hist = \<lparr>loss = (loss (hist st))[i := v], dice = (dice (hist st))[i := d],
                       hausdorff = (hausdorff (hist st))[i := h]\<rparr>,
                  running_loss = fadd env (running_loss st) v,
                  running_dice = fadd env (running_dice st) d,
                  running_hausdorff = fadd env (running_hausdorff st) h\<rparr>"
    and tr1: "trace w1 = trace w @ train_batch_events device (scheduler w \<noteq> None)
                   (fdiv env (fadd env (running_loss st) v) (Suc i))
                   (fdiv env (fadd env (running_dice st) d) (Suc i))"
    and w1: "scheduler w1 = map_option (\<lambda>s. s\<lparr>last_epoch := Suc (last_epoch s)\<rparr>) (scheduler w)"
      "training w1 = training w" "autocast w1 = autocast w"
      "grad_enabled w1 = grad_enabled w" "dirs w1 = dirs w" "files w1 = files w"
    by blast
  note IH = Cons.IH[OF rest]
  from IH obtain ps where ps: "length ps = length bs"
    "trace w' = trace w1 @
       concat (map (\<lambda>(a, b). train_batch_events device (scheduler w1 \<noteq> None) a b) ps)"
    by blast
  have sch: "(scheduler w1 \<noteq> None) = (scheduler w \<noteq> None)"
    using w1(1) by (cases "scheduler w") simp_all
  let ?p = "(fdiv env (fadd env (running_loss st) v) (Suc i),
             fdiv env (fadd env (running_dice st) d) (Suc i))"
  have "length (?p # ps) = length (b # bs) \<and>
        trace w' = trace w @
          concat (map (\<lambda>(a, b). train_batch_events device (scheduler w \<noteq> None) a b) (?p # ps))"
    using ps tr1 sch by simp
  then have tr: "\<exists>ps. length ps = length (b # bs) \<and>
            trace w' = trace w @
              concat (map (\<lambda>(a, b). train_batch_events device (scheduler w \<noteq> None) a b) ps)"
    by blast
  have sched: "scheduler w' =
      map_option (\<lambda>s. s\<lparr>last_epoch := last_epoch s + length (b # bs)\<rparr>) (scheduler w)"
    using IH w1(1) by (cases "scheduler w") simp_all
  have keep: "\<forall>j<i. loss (hist st') ! j = loss (hist st) ! j \<and>
                dice (hist st') ! j = dice (hist st) ! j \<and>
                hausdorff (hist st') ! j = hausdorff (hist st) ! j"
    using IH st1 by simp
  show ?case using IH st1 w1 tr sched keep by simp
qed

lemma train_loop_entries:
  assumes "train_loop env device i bs st w = (Inr st', w')" "k < length bs"
  shows "\<exists>stk wk. train_loop env device i (take k bs) st w = (Inr stk, wk) \<and>
           batch_values env device (training w) True (grad_enabled w) (params wk) (bs ! k) =
             Inr (loss (hist st') ! (i + k), dice (hist st') ! (i + k),
                  hausdorff (hist st') ! (i + k))"
  using assms
proof (induction bs arbitrary: i st w k)
  case Nil
  then show ?case by simp
next
  case (Cons b bs)
  from Cons.prems(1) obtain st1 w1 where
    b: "train_batch env device i b st w = (Inr st1, w1)" and
    rest: "train_loop env device (Suc i) bs st1 w1 = (Inr st', w')"
    by (auto simp: andthen_Inr)
  from train_batch_Inr[OF b] obtain v d h where
    vals: "batch_values env device (training w) True (grad_enabled w) (params w) b = Inr (v, d, h)"
    and len: "i < length (loss (hist st))" "i < length (dice (hist st))"
      "i < length (hausdorff (hist st))"
    and st1: "st1 = \<lparr>hist = \<lparr>loss = (loss (hist st))[i := v], dice = (dice (hist st))[i := d],
                       hausdorff = (hausdorff (hist st))[i := h]\<rparr>,
                  running_loss = fadd env (running_loss st) v,
                  running_dice = fadd env (running_dice st) d,
                  running_hausdorff = fadd env (running_hausdorff st) h\<rparr>"
    and w1: "training w1 = training w" "grad_enabled w1 = grad_enabled w"
    by blast
  show ?case
  proof (cases k)
    case 0
    from train_loop_Inr[OF rest] have
      "loss (hist st') ! i = loss (hist st1) ! i \<and> dice (hist st') ! i = dice (hist st1) ! i \<and>
       hausdorff (hist st') ! i = hausdorff (hist st1) ! i"
      by simp
    with st1 len have "loss (hist st') ! i = v" "dice (hist st') ! i = d"
      "hausdorff (hist st') ! i = h"
      by simp_all
    with vals 0 show ?thesis by (simp add: ret_def)
  next
    case (Suc k')
    with Cons.prems(2) have "k' < length bs" by simp
    from Cons.IH[OF rest this] obtain stk wk where
      "train_loop env device (Suc i) (take k' bs) st1 w1 = (Inr stk, wk)"
      "batch_values env device (training w1) True (grad_enabled w1) (params wk) (bs ! k') =
         Inr (loss (hist st') ! (Suc i + k'), dice (hist st') ! (Suc i + k'),
              hausdorff (hist st') ! (Suc i + k'))"
      by blast
    with b Suc w1 show ?thesis by (simp add: andthen_def)
  qed
qed

lemma eval_batch_Inr:
  assumes "eval_batch env device i batch st w = (Inr st', w')"
  shows "\<exists>v d h. batch_values env device (training w) (autocast w) (grad_enabled w) (params w) batch
             = Inr (v, d, h) \<and>
           i < length (loss (hist st)) \<and> i < length (dice (hist st)) \<and>
           i < length (hausdorff (hist st)) \<and>
           st' = \<lparr>hist = \<lparr>loss = (loss (hist st))[i := v], dice = (dice (hist st))[i := d],
                       hausdorff = (hausdorff (hist st))[i := h]\<rparr>,
                  running_loss = fadd env (running_loss st) v,
                  running_dice = fadd env (running_dice st) d,
                  running_hausdorff = fadd env (running_hausdorff st) h\<rparr> \<and>
           params w' = params w \<and> training w' = training w \<and> autocast w' = autocast w \<and>
           grad_enabled w' = grad_enabled w"
  using assms unfolding eval_batch_def
  apply (clarsimp simp: andthen_Inr call_Inr)
  apply (drule record_batch_Inr)
  apply (auto simp: batch_values_def lookup_def split: option.splits)
  done

lemma eval_loop_Inr:
  assumes "eval_loop env device i bs st w = (Inr st', w')"
  shows "length (loss (hist st')) = length (loss (hist st)) \<and>
         length (dice (hist st')) = length (dice (hist st)) \<and>
         length (hausdorff (hist st')) = length (hausdorff (hist st)) \<and>
         (\<forall>j<i. loss (hist st') ! j = loss (hist st) ! j \<and>
                dice (hist st') ! j = dice (hist st) ! j \<and>
                hausdorff (hist st') ! j = hausdorff (hist st) ! j) \<and>
         (\<forall>k<length bs.
            batch_values env device (training w) (autocast w) (grad_enabled w) (params w) (bs ! k) =
              Inr (loss (hist st') ! (i + k), dice (hist st') ! (i + k),
                   hausdorff (hist st') ! (i + k)))"
  using assms
proof (induction bs arbitrary: i st w)
  case Nil
  then show ?case by (simp add: ret_def)
next
  case (Cons b bs)
  from Cons.prems(1) obtain st1 w1 where
    b: "eval_batch env device i b st w = (Inr st1, w1)" and
    rest: "eval_loop env device (Suc i) bs st1 w1 = (Inr st', w')"
    by (auto simp: andthen_Inr)
  from eval_batch_Inr[OF b] obtain v d h where
    vals: "batch_values env device (training w) (autocast w) (grad_enabled w) (params w) b
             = Inr (v, d, h)"
    and len: "i < length (loss (hist st))" "i < length (dice (hist st))"
      "i < length (hausdorff (hist st))"
    and st1: "st1 = \<lparr>hist = \<lparr>loss = (loss (hist st))[i := v], dice = (dice (hist st))[i := d],
                       hausdorff = (hausdorff (hist st))[i := h]\<rparr>,
                  running_loss = fadd env (running_loss st) v,
                  running_dice = fadd env (running_dice st) d,
                  running_hausdorff = fadd env (running_hausdorff st) h\<rparr>"
    and w1: "params w1 = params w" "training w1 = training w" "autocast w1 = autocast w"
      "grad_enabled w1 = grad_enabled w"
    by blast
  note IH = Cons.IH[OF rest]
  have at_i: "loss (hist st') ! i = v" "dice (hist st') ! i = d" "hausdorff (hist st') ! i = h"
    using IH st1 len by simp_all
  have entries: "batch_values env device (training w) (autocast w) (grad_enabled w) (params w)
            ((b # bs) ! k) =
          Inr (loss (hist st') ! (i + k), dice (hist st') ! (i + k), hausdorff (hist st') ! (i + k))"
    if "k < length (b # bs)" for k
  proof (cases k)
    case 0
    with vals at_i show ?thesis by simp
  next
    case (Suc k')
    with that have "k' < length bs" by simp
    with IH w1 Suc show ?thesis by simp
  qed
  have keep: "\<forall>j<i. loss (hist st') ! j = loss (hist st) ! j \<and>
                dice (hist st') ! j = dice (hist st) ! j \<and>
                hausdorff (hist st') ! j = hausdorff (hist st) ! j"
    using IH st1 by simp
  show ?case using IH st1 keep entries by simp
qed

lemma train_begin_alt:
  "train_begin n w = w\<lparr>trace := trace w @ [Tqdm ''Training'' n, ModelTrain], training := True\<rparr>"
  by (simp add: train_begin_def)

lemma train_step_unfold:
  "train_step env dl device w =
     (case train_loop env device 0 dl (init_acc env (length dl)) (train_begin (length dl) w) of
        (Inl e, w') \<Rightarrow> (Inl e, w') | (Inr st, w') \<Rightarrow> (Inr (hist st), w'))"
  by (simp add: train_step_def train_begin_alt Let_def andthen_def log_def call_def modify_def
        ret_def)

lemma train_step_Inr:
  "fst (train_step env dl device w) = Inr h \<longleftrightarrow>
     (\<exists>st. train_loop env device 0 dl (init_acc env (length dl)) (train_begin (length dl) w) =
             (Inr st, snd (train_step env dl device w)) \<and> h = hist st)"
  unfolding train_step_unfold by (auto split: prod.splits sum.splits)

lemma eval_step_unfold:
  "eval_step env dl device desc w =
     (case eval_loop env device 0 dl (init_acc env (length dl)) (eval_begin desc (length dl) w) of
        (r, w') \<Rightarrow> (case r of Inl e \<Rightarrow> Inl e | Inr st \<Rightarrow> Inr (hist st),
                    w'\<lparr>grad_enabled := grad_enabled w, trace := trace w' @ [NoGradExit]\<rparr>))"
  by (simp add: eval_step_def eval_begin_def Let_def andthen_def log_def call_def modify_def
        no_grad_def ret_def split: prod.splits sum.splits)

lemma eval_step_Inr:
  "fst (eval_step env dl device desc w) = Inr h \<longleftrightarrow>
     (\<exists>st w'. eval_loop env device 0 dl (init_acc env (length dl))
               (eval_begin desc (length dl) w) = (Inr st, w') \<and> h = hist st)"
  unfolding eval_step_unfold by (auto split: prod.splits sum.splits)

lemma train_step_trace:
  assumes "fst (train_step env dl device w) = Inr h"
  shows "scheduler (snd (train_step env dl device w)) =
           map_option (\<lambda>s. s\<lparr>last_epoch := last_epoch s + length dl\<rparr>) (scheduler w) \<and>
         (\<exists>ps. length ps = length dl \<and>
            trace (snd (train_step env dl device w)) =
              trace w @ [Tqdm ''Training'' (length dl), ModelTrain] @
              concat (map (\<lambda>(a, b). train_batch_events device (scheduler w \<noteq> None) a b) ps))"
proof -
  from assms obtain st where
    run: "train_loop env device 0 dl (init_acc env (length dl)) (train_begin (length dl) w) =
            (Inr st, snd (train_step env dl device w))"
    by (auto simp: train_step_Inr)
  from train_loop_Inr[OF run] show ?thesis by (simp add: train_begin_def)
qed

lemma filter_batch_events_sched:
  "filter (\<lambda>e. e = SchedulerStep)
     (concat (map (\<lambda>(a, b). train_batch_events device sched a b) ps)) =
   replicate (if sched then length ps else 0) SchedulerStep"
  by (induction ps) (auto simp: train_batch_events_def)

lemma filter_batch_events_other:
  "filter (\<lambda>e. e \<noteq> SchedulerStep)
     (concat (map (\<lambda>(a, b). train_batch_events device sched a b) ps)) =
   concat (map (\<lambda>(a, b). train_batch_events device False a b) ps)"
  by (induction ps) (auto simp: train_batch_events_def)

section \<open>The concrete run, evaluated\<close>

lemma example_env_simps:
  "to_device example_env device x = Inr x"
  "autocast_enter example_env device = Inr ()"
  "forward example_env tr ac gr p x = Inr (p * x)"
  "criterion example_env ac gr preds masks = Inr [''combined'' \<mapsto> preds - masks]"
  "scale example_env c l = Inr (c * l)"
  "backward example_env p l g = Inr (l + (case g of None \<Rightarrow> 0 | Some g' \<Rightarrow> g'))"
  "scaler_step example_env c opt p g = Inr (c, opt, p - 1, g)"
  "scaler_update example_env c = Inr (c + 1)"
  "scheduler_step example_env cfg n opt = Inr (opt + 10)"
  "item example_env l = Inr l"
  "dice_score example_env preds masks = Inr (preds + masks)"
  "hausdorff_distance example_env preds masks = Inr (preds * masks)"
  "fzero example_env = 0"
  "fadd example_env a b = a + b"
  "fdiv example_env a n = a div int n"
  by (simp_all add: example_env_def)

lemma example_record_batch:
  assumes "i < length (loss (hist st))" "i < length (dice (hist st))"
    "i < length (hausdorff (hist st))"
  shows "record_batch example_env i preds masks [''combined'' \<mapsto> c] st w =
     (Inr \<lparr>hist = \<lparr>loss = (loss (hist st))[i := c], dice = (dice (hist st))[i := preds + masks],
                   hausdorff = (hausdorff (hist st))[i := preds * masks]\<rparr>,
           running_loss = running_loss st + c,
           running_dice = running_dice st + (preds + masks),
           running_hausdorff = running_hausdorff st + preds * masks\<rparr>,
      w\<lparr>trace := trace w @ [Item, DiceScore, HausdorffDistance,
           SetPostfix ((running_loss st + c) div int (Suc i))
                      ((running_dice st + (preds + masks)) div int (Suc i))]\<rparr>)"
  using assms
  by (simp add: record_batch_def andthen_def call_def log_def lift_def ret_def store_def
        lookup_def example_env_simps Let_def)

lemma example_train_batch:
  assumes "i < length (loss (hist st))" "i < length (dice (hist st))"
    "i < length (hausdorff (hist st))" "scheduler w = Some s"
  shows "train_batch example_env device i (x, m) st w =
     (Inr \<lparr>hist = \<lparr>loss = (loss (hist st))[i := params w * x - m],
                   dice = (dice (hist st))[i := params w * x + m],
                   hausdorff = (hausdorff (hist st))[i := params w * x * m]\<rparr>,
           running_loss = running_loss st + (params w * x - m),
           running_dice = running_dice st + (params w * x + m),
           running_hausdorff = running_hausdorff st + params w * x * m\<rparr>,
      w\<lparr>params := params w - 1,
        grads := Some (grad_scaler w * (params w * x - m)),
        optimizer := optimizer w + 10,
        grad_scaler := grad_scaler w + 1,
        scheduler := Some (s\<lparr>last_epoch := Suc (last_epoch s)\<rparr>),
        trace := trace w @ train_batch_events device True
           ((running_loss st + (params w * x - m)) div int (Suc i))
           ((running_dice st + (params w * x + m)) div int (Suc i))\<rparr>)"
  using assms
  by (simp add: train_batch_def example_record_batch step_scheduler_def with_autocast_def
        andthen_def call_def log_def lift_def ret_def modify_def lookup_def
        train_batch_events_def example_env_simps)


lemma example_train:
  "fst (train_step example_env example_batches ''cpu'' example_world) =
     Inr \<lparr>loss = [4, 10], dice = [6, 14], hausdorff = [5, 24]\<rparr>"
  by (simp add: train_step_unfold train_begin_def example_batches_def init_acc_def
        example_train_batch andthen_def ret_def example_world_def example_env_simps)

lemma example_eval_batch:
  assumes "i < length (loss (hist st))" "i < length (dice (hist st))"
    "i < length (hausdorff (hist st))"
  shows "eval_batch example_env device i (x, m) st w =
     (Inr \<lparr>hist = \<lparr>loss = (loss (hist st))[i := params w * x - m],
                   dice = (dice (hist st))[i := params w * x + m],
                   hausdorff = (hausdorff (hist st))[i := params w * x * m]\<rparr>,
           running_loss = running_loss st + (params w * x - m),
           running_dice = running_dice st + (params w * x + m),
           running_hausdorff = running_hausdorff st + params w * x * m\<rparr>,
      w\<lparr>trace := trace w @ [ToDevice, ToDevice, Forward, Criterion, Item, DiceScore,
           HausdorffDistance,
           SetPostfix ((running_loss st + (params w * x - m)) div int (Suc i))
                      ((running_dice st + (params w * x + m)) div int (Suc i))]\<rparr>)"
  using assms
  by (simp add: eval_batch_def example_record_batch andthen_def call_def example_env_simps)

lemma example_eval:
  "fst (eval_step example_env example_batches ''cpu'' ''Validating'' example_world) =
     Inr \<lparr>loss = [4, 13], dice = [6, 17], hausdorff = [5, 30]\<rparr>"
  by (simp add: eval_step_unfold eval_begin_def example_batches_def init_acc_def
        example_eval_batch andthen_def ret_def example_world_def example_env_simps)

section \<open>Claims about the histories and the training runner\<close>

text \<open>
  Claim C1. When a pass of either runner completes, each of the three sequences of the
  history it returns has exactly as many entries as the data loader has batches, and entry
  \<open>i\<close> holds the loss, dice and Hausdorff values computed for batch \<open>i\<close>: in
  \<^verbatim>\<open>train_step\<close> with the parameters as they are after the first \<open>i\<close> batches, in
  \<^verbatim>\<open>eval_step\<close> with the parameters of the call. No entry is left as \<^verbatim>\<open>np.zeros\<close>
  made it.
\<close>

theorem history_complete:
  "(fst (train_step env dl device w) = Inr h \<longrightarrow>
      length (loss h) = length dl \<and> length (dice h) = length dl \<and>
      length (hausdorff h) = length dl \<and>
      (\<forall>i<length dl. \<exists>st wi.
          train_loop env device 0 (take i dl) (init_acc env (length dl))
            (train_begin (length dl) w) = (Inr st, wi) \<and>
          batch_values env device True True (grad_enabled w) (params wi) (dl ! i) =
            Inr (loss h ! i, dice h ! i, hausdorff h ! i))) \<and>
   (fst (eval_step env dl device desc w) = Inr h' \<longrightarrow>
      length (loss h') = length dl \<and> length (dice h') = length dl \<and>
      length (hausdorff h') = length dl \<and>
      (\<forall>i<length dl.
          batch_values env device False (autocast w) False (params w) (dl ! i) =
            Inr (loss h' ! i, dice h' ! i, hausdorff h' ! i)))"
proof (intro conjI impI allI)
  assume "fst (train_step env dl device w) = Inr h"
  then obtain st where
    run: "train_loop env device 0 dl (init_acc env (length dl)) (train_begin (length dl) w) =
            (Inr st, snd (train_step env dl device w))" and h: "h = hist st"
    by (auto simp: train_step_Inr)
  from train_loop_Inr[OF run] h
  show "length (loss h) = length dl" "length (dice h) = length dl"
    "length (hausdorff h) = length dl"
    by (simp_all add: init_acc_def)
  fix i assume "i < length dl"
  from train_loop_entries[OF run this] h
  show "\<exists>st wi.
          train_loop env device 0 (take i dl) (init_acc env (length dl))
            (train_begin (length dl) w) = (Inr st, wi) \<and>
          batch_values env device True True (grad_enabled w) (params wi) (dl ! i) =
            Inr (loss h ! i, dice h ! i, hausdorff h ! i)"
    by (simp add: train_begin_def)
next
  assume "fst (eval_step env dl device desc w) = Inr h'"
  then obtain st w' where
    run: "eval_loop env device 0 dl (init_acc env (length dl))
               (eval_begin desc (length dl) w) = (Inr st, w')" and h: "h' = hist st"
    by (auto simp: eval_step_Inr)
  from eval_loop_Inr[OF run] h
  show "length (loss h') = length dl" "length (dice h') = length dl"
    "length (hausdorff h') = length dl"
    by (simp_all add: init_acc_def)
  fix i assume "i < length dl"
  with eval_loop_Inr[OF run] h
  show "batch_values env device False (autocast w) False (params w) (dl ! i) =
            Inr (loss h' ! i, dice h' ! i, hausdorff h' ! i)"
    by (simp add: eval_begin_def)
qed

theorem history_complete_witness:
  "fst (train_step example_env example_batches ''cpu'' example_world) =
     Inr \<lparr>loss = [4, 10], dice = [6, 14], hausdorff = [5, 24]\<rparr> \<and>
   fst (eval_step example_env example_batches ''cpu'' ''Validating'' example_world) =
     Inr \<lparr>loss = [4, 13], dice = [6, 17], hausdorff = [5, 30]\<rparr> \<and>
   length example_batches = 2 \<and>
   batch_values example_env ''cpu'' False False False 5 (example_batches ! 1) = Inr (13, 17, 30) \<and>
   (\<exists>st wi. train_loop example_env ''cpu'' 0 (take 1 example_batches) (init_acc example_env 2)
               (train_begin 2 example_world) = (Inr st, wi) \<and>
            batch_values example_env ''cpu'' True True True (params wi) (example_batches ! 1) =
              Inr (10, 14, 24))"
proof -
  have len: "length example_batches = 2" by (simp add: example_batches_def)
  have w: "autocast example_world = False" "params example_world = 5"
    "grad_enabled example_world = True"
    by (simp_all add: example_world_def)
  note th = history_complete[of example_env example_batches "''cpu''" example_world
      "\<lparr>loss = [4, 10], dice = [6, 14], hausdorff = [5, 24]\<rparr>" "''Validating''"
      "\<lparr>loss = [4, 13], dice = [6, 17], hausdorff = [5, 30]\<rparr>"]
  from th example_train have
    "\<forall>i<length example_batches. \<exists>st wi.
          train_loop example_env ''cpu'' 0 (take i example_batches)
            (init_acc example_env (length example_batches))
            (train_begin (length example_batches) example_world) = (Inr st, wi) \<and>
          batch_values example_env ''cpu'' True True (grad_enabled example_world) (params wi)
            (example_batches ! i) =
            Inr (loss \<lparr>loss = [4, 10], dice = [6, 14], hausdorff = [5, 24]\<rparr> ! i,
                 dice \<lparr>loss = [4, 10], dice = [6, 14], hausdorff = [5, 24]\<rparr> ! i,
                 hausdorff \<lparr>loss = [4, 10], dice = [6, 14], hausdorff = [5, 24]\<rparr> ! i)"
    by blast
  from this[rule_format, of 1] have t: "\<exists>st wi.
       train_loop example_env ''cpu'' 0 (take 1 example_batches) (init_acc example_env 2)
               (train_begin 2 example_world) = (Inr st, wi) \<and>
       batch_values example_env ''cpu'' True True True (params wi) (example_batches ! 1) =
              Inr (10, 14, 24)"
    by (simp add: len w)
  from th example_eval have
    "\<forall>i<length example_batches.
          batch_values example_env ''cpu'' False (autocast example_world) False
            (params example_world) (example_batches ! i) =
            Inr (loss \<lparr>loss = [4, 13], dice = [6, 17], hausdorff = [5, 30]\<rparr> ! i,
                 dice \<lparr>loss = [4, 13], dice = [6, 17], hausdorff = [5, 30]\<rparr> ! i,
                 hausdorff \<lparr>loss = [4, 13], dice = [6, 17], hausdorff = [5, 30]\<rparr> ! i)"
    by blast
  from this[rule_format, of 1] have e:
    "batch_values example_env ''cpu'' False False False 5 (example_batches ! 1) = Inr (13, 17, 30)"
    by (simp add: len w)
  from example_train example_eval len t e show ?thesis by blast
qed


text \<open>
  Claim C3. When a training pass over \<open>n\<close> batches completes, the scheduler's step
  counter has grown by exactly \<open>n\<close> and the log holds exactly \<open>n\<close> scheduler steps (none
  when no scheduler was passed); with the scheduler steps left out, the pass is the sequence
  of calls of a pass without scheduler. Without a scheduler, line 53 does nothing.
\<close>

theorem scheduler_once_per_batch:
  "(fst (train_step env dl device w) = Inr h \<longrightarrow>
      scheduler (snd (train_step env dl device w)) =
        map_option (\<lambda>s. s\<lparr>last_epoch := last_epoch s + length dl\<rparr>) (scheduler w) \<and>
      filter (\<lambda>e. e = SchedulerStep)
          (drop (length (trace w)) (trace (snd (train_step env dl device w)))) =
        replicate (if scheduler w = None then 0 else length dl) SchedulerStep \<and>
      (\<exists>ps. length ps = length dl \<and>
         filter (\<lambda>e. e \<noteq> SchedulerStep)
             (drop (length (trace w)) (trace (snd (train_step env dl device w)))) =
           [Tqdm ''Training'' (length dl), ModelTrain] @
           concat (map (\<lambda>(a, b). train_batch_events device False a b) ps))) \<and>
   step_scheduler env (w\<lparr>scheduler := None\<rparr>) = (Inr (), w\<lparr>scheduler := None\<rparr>)"
proof (intro conjI impI)
  assume ok: "fst (train_step env dl device w) = Inr h"
  from train_step_trace[OF ok] obtain ps where
    sch: "scheduler (snd (train_step env dl device w)) =
           map_option (\<lambda>s. s\<lparr>last_epoch := last_epoch s + length dl\<rparr>) (scheduler w)"
    and ps: "length ps = length dl"
    and tr: "trace (snd (train_step env dl device w)) =
              trace w @ [Tqdm ''Training'' (length dl), ModelTrain] @
              concat (map (\<lambda>(a, b). train_batch_events device (scheduler w \<noteq> None) a b) ps)"
    by blast
  show "scheduler (snd (train_step env dl device w)) =
           map_option (\<lambda>s. s\<lparr>last_epoch := last_epoch s + length dl\<rparr>) (scheduler w)"
    by (rule sch)
  show "filter (\<lambda>e. e = SchedulerStep)
          (drop (length (trace w)) (trace (snd (train_step env dl device w)))) =
        replicate (if scheduler w = None then 0 else length dl) SchedulerStep"
    unfolding tr using ps by (simp add: filter_batch_events_sched)
  have "filter (\<lambda>e. e \<noteq> SchedulerStep)
             (drop (length (trace w)) (trace (snd (train_step env dl device w)))) =
           [Tqdm ''Training'' (length dl), ModelTrain] @
           concat (map (\<lambda>(a, b). train_batch_events device False a b) ps)"
    unfolding tr by (simp add: filter_batch_events_other)
  with ps show "\<exists>ps. length ps = length dl \<and>
         filter (\<lambda>e. e \<noteq> SchedulerStep)
             (drop (length (trace w)) (trace (snd (train_step env dl device w)))) =
           [Tqdm ''Training'' (length dl), ModelTrain] @
           concat (map (\<lambda>(a, b). train_batch_events device False a b) ps)"
    by blast
next
  show "step_scheduler env (w\<lparr>scheduler := None\<rparr>) = (Inr (), w\<lparr>scheduler := None\<rparr>)"
    by (simp add: step_scheduler_def ret_def)
qed

theorem scheduler_once_per_batch_witness:
  "fst (train_step example_env example_batches ''cpu'' example_world) =
     Inr \<lparr>loss = [4, 10], dice = [6, 14], hausdorff = [5, 24]\<rparr> \<and>
   scheduler (snd (train_step example_env example_batches ''cpu'' example_world)) =
     Some \<lparr>last_epoch = 2, sched_config = ()\<rparr> \<and>
   filter (\<lambda>e. e = SchedulerStep)
     (trace (snd (train_step example_env example_batches ''cpu'' example_world))) =
     [SchedulerStep, SchedulerStep]"
proof -
  have w: "scheduler example_world = Some \<lparr>last_epoch = 0, sched_config = ()\<rparr>"
    "trace example_world = []" "length example_batches = 2"
    by (simp_all add: example_world_def example_batches_def)
  from scheduler_once_per_batch[of example_env example_batches "''cpu''" example_world
      "\<lparr>loss = [4, 10], dice = [6, 14], hausdorff = [5, 24]\<rparr>"] example_train
  show ?thesis by (simp add: w numeral_2_eq_2)
qed



section \<open>The orchestrator saves last\<close>

lemma appendsI:
  assumes "\<And>w. \<exists>evs. set evs \<subseteq> A \<and> trace (snd (m w)) = trace w @ evs \<and>
        files (snd (m w)) = files w \<and> dirs (snd (m w)) = dirs w"
  shows "appends A m"
  using assms unfolding appends_def by blast






lemma appends_lift_world: "appends A (\<lambda>w. lift (F w) w)"
  by (rule appendsI, rule exI[where x = "[]"]) (simp add: lift_def)








































section \<open>Claim about the orchestrator\<close>



end
